theory Spec2Isabelle
  imports Complex_Main
begin

section \<open>The layout document and the editor state (src/App.tsx)\<close>

text \<open>
  JavaScript numbers are modelled as real numbers: every finite double is a real, and the
  arithmetic of the handlers (subtraction, division, multiplication by 100, \<open>Math.abs\<close>,
  \<open>Math.max\<close>, \<open>Math.min\<close>) is taken without rounding. The non-finite values
  (\<open>NaN\<close>, \<open>Infinity\<close>) have no counterpart: they can only arise from dividing by a
  bounding rectangle of width or height zero, so every statement that depends on such a
  quotient assumes a rectangle of positive width and height.
\<close>

datatype PostFormat = Format_1_1 | Format_9_16 | Format_16_9

text \<open>\<open>type DragTarget = 'background' | 'circle' | 'headline' | null\<close>: the three regions,
  with \<open>null\<close> as \<open>None\<close>.\<close>

datatype Region = Background | Circle | Headline

type_synonym DragTarget = "Region option"

record NewsPost =
  brandName :: string
  headline :: string
  mainImage :: "string option"
  circleImage :: "string option"
  highlightColor :: string
  brandColor :: string
  format :: PostFormat
  mainImageY :: real
  circleImageY :: real
  circleImageScale :: real
  circleX :: real
  circleY :: real
  circleSize :: real
  headlineSize :: real
  headlineY :: real

text \<open>The part of a \<open>DOMRect\<close> that the handlers read.\<close>

record DOMRect =
  rect_left :: real
  rect_top :: real
  rect_width :: real
  rect_height :: real
  rect_right :: real
  rect_bottom :: real

text \<open>The value of \<open>dragStart\<close>, an object \<open>{ x, y }\<close>.\<close>

record Point =
  pt_x :: real
  pt_y :: real

text \<open>The \<open>useState\<close> cells of the component \<open>App\<close>.\<close>

record AppState =
  post :: NewsPost
  isExporting :: bool
  dragTarget :: DragTarget
  dragStart :: Point
  isDragging :: bool
  isSaving :: bool

definition initialPost :: NewsPost where
  "initialPost =
     \<lparr> brandName = ''EZEN NEWS'',
       headline = ''EZEN NEWS revelado: Novo gerador de posts {revoluciona} design digital'',
       mainImage = Some ''https://images.unsplash.com/photo-1485827404703-89b55fcc595e?auto=format&fit=crop&q=80&w=1080'',
       circleImage = Some ''https://images.unsplash.com/photo-1531297484001-80022131f5a1?auto=format&fit=crop&q=80&w=400'',
       highlightColor = ''#00D1FF'',
       brandColor = ''#FF0055'',
       format = Format_1_1,
       mainImageY = 50,
       circleImageY = 50,
       circleImageScale = 1,
       circleX = 10,
       circleY = 10,
       circleSize = 30,
       headlineSize = 100,
       headlineY = 0 \<rparr>"

definition initialState :: AppState where
  "initialState =
     \<lparr> post = initialPost,
       isExporting = False,
       dragTarget = None,
       dragStart = \<lparr> pt_x = 0, pt_y = 0 \<rparr>,
       isDragging = False,
       isSaving = False \<rparr>"

section \<open>The pointer handlers\<close>

text \<open>
  The handlers are first written for a state that has been rendered: the state the handler
  reads, through the constants of the render that created it, is also the state its
  \<open>set...\<close> calls update, so a handler is a function from the state before the event to
  the state after it. The section on render timing below separates the two. The event
  contributes \<open>clientX\<close> and \<open>clientY\<close>. \<open>setPointerCapture\<close> changes no state cell
  and is left out.
\<close>

definition handlePointerDown :: "real \<Rightarrow> real \<Rightarrow> DragTarget \<Rightarrow> AppState \<Rightarrow> AppState" where
  "handlePointerDown clientX clientY target s =
     s\<lparr> dragTarget := target,
        dragStart := \<lparr> pt_x = clientX, pt_y = clientY \<rparr>,
        isDragging := False \<rparr>"

text \<open>
  The updater passed to \<open>setPost\<close> in \<open>handlePointerMove\<close>, with the values it closes
  over (\<open>dragTarget\<close>, \<open>rect\<close>, \<open>e.clientY\<close>, \<open>xPct\<close>, \<open>yPct\<close>) as arguments.
\<close>

definition movePost ::
  "DragTarget \<Rightarrow> DOMRect \<Rightarrow> real \<Rightarrow> real \<Rightarrow> real \<Rightarrow> NewsPost \<Rightarrow> NewsPost" where
  "movePost target rect clientY xPct yPct prev =
     (if target = Some Circle then
        prev\<lparr> circleX := max 0 (min (100 - circleSize prev) (xPct - circleSize prev / 2)),
              circleY := max 0 (min (100 - circleSize prev) (yPct - circleSize prev / 2)) \<rparr>
      else if target = Some Background then
        prev\<lparr> mainImageY := max 0 (min 100 yPct) \<rparr>
      else if target = Some Headline then
        (let fromBottom = rect_bottom rect - clientY;
             offset = fromBottom - (if format prev = Format_9_16 then 180 else 100)
         in prev\<lparr> headlineY := offset \<rparr>)
      else prev)"

text \<open>
  \<open>previewRef.current\<close> is \<open>None\<close> when the preview is not mounted and otherwise carries
  the result of \<open>getBoundingClientRect()\<close>.
\<close>

definition handlePointerMove :: "real \<Rightarrow> real \<Rightarrow> DOMRect option \<Rightarrow> AppState \<Rightarrow> AppState" where
  "handlePointerMove clientX clientY previewRef s =
     (case (dragTarget s, previewRef) of
        (Some target, Some rect) \<Rightarrow>
          let dx = \<bar>clientX - pt_x (dragStart s)\<bar>;
              dy = \<bar>clientY - pt_y (dragStart s)\<bar>;
              s1 = (if dx > 5 \<or> dy > 5 then s\<lparr> isDragging := True \<rparr> else s);
              xPct = ((rect_right rect - clientX) / rect_width rect) * 100;
              yPct = ((clientY - rect_top rect) / rect_height rect) * 100
          in s1\<lparr> post := movePost (Some target) rect clientY xPct yPct (post s1) \<rparr>
      | _ \<Rightarrow> s)"

text \<open>What a handler does besides updating state: a click on one of the two hidden file
  inputs, which opens the file-selection surface.\<close>

datatype Effect = ClickFileInput | ClickCircleInput

definition handlePointerUp :: "DragTarget \<Rightarrow> AppState \<Rightarrow> Effect list \<times> AppState" where
  "handlePointerUp target s =
     ((if \<not> isDragging s \<and> target \<noteq> None then
         (if target = Some Background then [ClickFileInput] else []) @
         (if target = Some Circle then [ClickCircleInput] else [])
       else []),
      s\<lparr> dragTarget := None, isDragging := False \<rparr>)"

text \<open>
  The \<open>onChange\<close> handler of the range input for the diameter of the circle,
  \<open>setPost({...post, circleSize: parseInt(e.target.value)})\<close>. The input has
  \<open>min="10" max="70"\<close> and the default step, so its value parses to an integer, which
  is the argument here.
\<close>

definition onChangeCircleSize :: "int \<Rightarrow> AppState \<Rightarrow> AppState" where
  "onChangeCircleSize parsed s = s\<lparr> post := (post s)\<lparr> circleSize := of_int parsed \<rparr> \<rparr>"

section \<open>Render timing\<close>

text \<open>
  \<open>isDragging\<close>, \<open>dragTarget\<close> and \<open>dragStart\<close> are constants of one render of \<open>App\<close>,
  and a handler is a closure of the render that created it: what it reads is the state of
  the last committed render. A \<open>set...\<close> call queues an update, and the next render
  commits the queued updates in their order. \<open>rendered\<close> is the state of the last
  committed render and \<open>latest\<close> the state with every queued update applied. The
  updates of a pointer-down, a discrete event, are rendered before the next event is
  handled; those of a pointer-move are rendered in a later task, before or after the next
  event.
\<close>

record View =
  rendered :: AppState
  latest :: AppState

definition initialView :: View where
  "initialView = \<lparr> rendered = initialState, latest = initialState \<rparr>"

definition commit :: "View \<Rightarrow> View" where
  "commit v = v\<lparr> rendered := latest v \<rparr>"

text \<open>
  \<open>handlePointerMove\<close> with the state it reads, \<open>closure\<close>, apart from the state its
  updates apply to, \<open>queued\<close>: the guard, \<open>dx\<close>, \<open>dy\<close> and the \<open>dragTarget\<close> inside the
  updater come from the closure, while \<open>setIsDragging(true)\<close> and the updater of
  \<open>setPost\<close>, which receives \<open>prev\<close>, act on the queued state.
\<close>

definition handlePointerMoveOn ::
  "real \<Rightarrow> real \<Rightarrow> DOMRect option \<Rightarrow> AppState \<Rightarrow> AppState \<Rightarrow> AppState" where
  "handlePointerMoveOn clientX clientY previewRef closure queued =
     (case (dragTarget closure, previewRef) of
        (Some target, Some rect) \<Rightarrow>
          let dx = \<bar>clientX - pt_x (dragStart closure)\<bar>;
              dy = \<bar>clientY - pt_y (dragStart closure)\<bar>;
              s1 = (if dx > 5 \<or> dy > 5 then queued\<lparr> isDragging := True \<rparr> else queued);
              xPct = ((rect_right rect - clientX) / rect_width rect) * 100;
              yPct = ((clientY - rect_top rect) / rect_height rect) * 100
          in s1\<lparr> post := movePost (Some target) rect clientY xPct yPct (post s1) \<rparr>
      | _ \<Rightarrow> queued)"

text \<open>
  The three pointer events on a view. \<open>handlePointerDown\<close> reads no state cell.
  \<open>handlePointerUp\<close> reads \<open>isDragging\<close> for the clicks and sets two cells to constants,
  so the clicks are those of the rendered state and the updates act on the queued one.
\<close>

definition pointerDown :: "real \<Rightarrow> real \<Rightarrow> DragTarget \<Rightarrow> View \<Rightarrow> View" where
  "pointerDown clientX clientY target v =
     v\<lparr> latest := handlePointerDown clientX clientY target (latest v) \<rparr>"

definition pointerMove :: "real \<Rightarrow> real \<Rightarrow> DOMRect option \<Rightarrow> View \<Rightarrow> View" where
  "pointerMove clientX clientY previewRef v =
     v\<lparr> latest := handlePointerMoveOn clientX clientY previewRef (rendered v) (latest v) \<rparr>"

definition pointerUp :: "DragTarget \<Rightarrow> View \<Rightarrow> Effect list \<times> View" where
  "pointerUp target v =
     (fst (handlePointerUp target (rendered v)),
      v\<lparr> latest := snd (handlePointerUp target (latest v)) \<rparr>)"

text \<open>The preview's own \<open>onPointerUp={(e) => handlePointerUp(e, dragTarget)}\<close>, which
  passes the \<open>dragTarget\<close> of its render.\<close>

definition previewPointerUp :: "View \<Rightarrow> Effect list \<times> View" where
  "previewPointerUp v = pointerUp (dragTarget (rendered v)) v"

section \<open>Headline segmentation\<close>

text \<open>
  \<open>renderHeadline\<close> splits the headline with \<open>text.split(/(\{.*?\})/)\<close>. A string is
  a list of characters; \<^typ>\<open>char\<close> has 256 values, so of the four line terminators that
  \<open>.\<close> refuses, line feed and carriage return are present and U+2028 and U+2029 are not.
\<close>

definition isLineTerminator :: "char \<Rightarrow> bool" where
  "isLineTerminator c \<longleftrightarrow> c = CHR 0x0A \<or> c = CHR 0x0D"

text \<open>
  \<open>.*?\}\<close> at the start of a string: the lazy star takes one more character only when
  \<open>\}\<close> does not match here, and \<open>.\<close> takes no line terminator. The result is the
  text taken by the star and the text after the closing brace.
\<close>

fun matchBody :: "string \<Rightarrow> (string \<times> string) option" where
  "matchBody [] = None"
| "matchBody (c # cs) =
     (if c = CHR ''}'' then Some ([], cs)
      else if isLineTerminator c then None
      else (case matchBody cs of
              None \<Rightarrow> None
            | Some (inner, rest) \<Rightarrow> Some (c # inner, rest)))"

text \<open>\<open>\{.*?\}\<close> at the start of a string: the matched text and the text after it.\<close>

fun matchBraces :: "string \<Rightarrow> (string \<times> string) option" where
  "matchBraces [] = None"
| "matchBraces (c # cs) =
     (if c = CHR ''{'' then
        (case matchBody cs of
           None \<Rightarrow> None
         | Some (inner, rest) \<Rightarrow> Some (CHR ''{'' # inner @ ''}'', rest))
      else None)"

lemma matchBody_shorter: "matchBody cs = Some (inner, rest) \<Longrightarrow> length rest < length cs"
  by (induction cs arbitrary: inner) (auto split: if_splits option.splits)

lemma matchBraces_shorter: "matchBraces s = Some (m, rest) \<Longrightarrow> length rest < length s"
  by (cases s) (auto split: if_splits option.splits dest: matchBody_shorter)

text \<open>
  The loop of \<open>String.prototype.split\<close> with a regular expression: \<open>seg\<close> is the text
  since the end of the last match and the second argument is the text from the position
  where a match is tried next. A match ends the segment and is itself added to the result,
  being the capture of the only group; the pattern matches no empty string, so every match
  moves on. Without a match the position advances by one character.
\<close>

function splitLoop :: "string \<Rightarrow> string \<Rightarrow> string list" where
  "splitLoop seg [] = [seg]"
| "splitLoop seg (c # cs) =
     (case matchBraces (c # cs) of
        Some (m, rest) \<Rightarrow> seg # m # splitLoop [] rest
      | None \<Rightarrow> splitLoop (seg @ [c]) cs)"
  by pat_completeness auto
termination
proof (relation "measure (\<lambda>(seg, s). length s)")
  fix seg :: string and c cs x2 m rest
  assume "matchBraces (c # cs) = Some x2" and "(m, rest) = x2"
  then have "length rest < length (c # cs)"
    using matchBraces_shorter [of "c # cs" m rest] by simp
  then show "(([], rest), (seg, c # cs)) \<in> measure (\<lambda>(seg, s). length s)"
    by simp
qed simp_all

definition splitHeadline :: "string \<Rightarrow> string list" where
  "splitHeadline text = splitLoop [] text"

text \<open>What \<open>renderHeadline\<close> returns for a part: a \<open>span\<close> with a colour and a text, or
  the part itself.\<close>

datatype Node = Span string string | Text string

definition startsWith :: "string \<Rightarrow> char \<Rightarrow> bool" where
  "startsWith part c \<longleftrightarrow> (case part of [] \<Rightarrow> False | d # _ \<Rightarrow> d = c)"

definition endsWith :: "string \<Rightarrow> char \<Rightarrow> bool" where
  "endsWith part c \<longleftrightarrow> part \<noteq> [] \<and> last part = c"

text \<open>\<open>part.slice(1, -1)\<close>: the part without its first and its last character.\<close>

definition slice_1_neg1 :: "string \<Rightarrow> string" where
  "slice_1_neg1 part = take (length part - 1 - 1) (drop 1 part)"

definition renderHeadline :: "NewsPost \<Rightarrow> string \<Rightarrow> Node list" where
  "renderHeadline p text =
     map (\<lambda>part. if startsWith part (CHR ''{'') \<and> endsWith part (CHR ''}'')
                 then Span (highlightColor p) (slice_1_neg1 part)
                 else Text part)
         (splitHeadline text)"

text \<open>The text a node shows, and the headline text it stands for.\<close>

fun nodeText :: "Node \<Rightarrow> string" where
  "nodeText (Span colour t) = t"
| "nodeText (Text t) = t"

fun nodeSource :: "Node \<Rightarrow> string" where
  "nodeSource (Span colour t) = ''{'' @ t @ ''}''"
| "nodeSource (Text t) = t"

definition isBrace :: "char \<Rightarrow> bool" where
  "isBrace c \<longleftrightarrow> c = CHR ''{'' \<or> c = CHR ''}''"

text \<open>
  The braces of a headline form balanced pairs that are not nested: reading from the left,
  \<open>{\<close> occurs only outside a pair, \<open>}\<close> only inside one, and the text ends outside.
  The flag says whether the position is inside a pair.
\<close>

fun balancedFrom :: "bool \<Rightarrow> string \<Rightarrow> bool" where
  "balancedFrom inside [] = (\<not> inside)"
| "balancedFrom inside (c # cs) =
     (if c = CHR ''{'' then \<not> inside \<and> balancedFrom True cs
      else if c = CHR ''}'' then inside \<and> balancedFrom False cs
      else balancedFrom inside cs)"

definition balancedBraces :: "string \<Rightarrow> bool" where
  "balancedBraces text = balancedFrom False text"

text \<open>No line terminator stands between a \<open>{\<close> and the next \<open>}\<close>.\<close>

fun pairsOnOneLineFrom :: "bool \<Rightarrow> string \<Rightarrow> bool" where
  "pairsOnOneLineFrom inside [] = True"
| "pairsOnOneLineFrom inside (c # cs) =
     (if c = CHR ''{'' then pairsOnOneLineFrom True cs
      else if c = CHR ''}'' then pairsOnOneLineFrom False cs
      else (inside \<longrightarrow> \<not> isLineTerminator c) \<and> pairsOnOneLineFrom inside cs)"

definition pairsOnOneLine :: "string \<Rightarrow> bool" where
  "pairsOnOneLine text = pairsOnOneLineFrom False text"

section \<open>Export\<close>

text \<open>
  \<open>downloadPost\<close> is an \<open>async\<close> function: a call runs to its first \<open>await\<close> and
  is continued, one stretch at a time, when the awaited promise settles. The calls that
  wait are kept in \<open>pending\<close>, each with the \<open>await\<close> it waits at; no other code runs
  inside a stretch. \<open>rasterizerCalls\<close>, \<open>downloads\<close> and \<open>alerts\<close> count the calls of
  \<open>html2canvas\<close>, of \<open>link.click()\<close> and of \<open>alert\<close>.
\<close>

datatype ExportAwait = AwaitFontsReady | AwaitSettleDelay | AwaitCanvas

text \<open>
  How the wait of a call ends: the awaited promise is fulfilled and the code after it runs
  to the next \<open>await\<close> or to the end of the \<open>try\<close> block; the promise is rejected; or the
  promise is fulfilled and the code after it throws inside the \<open>try\<close> block (the call of
  \<open>html2canvas\<close> itself, or \<open>canvas.toDataURL\<close> on a tainted canvas).
\<close>

datatype Settled = Fulfilled | Rejected | Thrown

record Runtime =
  app :: AppState
  pending :: "ExportAwait list"
  rasterizerCalls :: nat
  downloads :: nat
  alerts :: nat

definition initialRuntime :: Runtime where
  "initialRuntime =
     \<lparr> app = initialState, pending = [], rasterizerCalls = 0, downloads = 0, alerts = 0 \<rparr>"

text \<open>The call itself, up to \<open>await document.fonts.ready\<close>.\<close>

definition downloadPost :: "DOMRect option \<Rightarrow> Runtime \<Rightarrow> Runtime" where
  "downloadPost previewRef rt =
     (if previewRef = None \<or> isExporting (app rt) then rt
      else rt\<lparr> app := (app rt)\<lparr> isExporting := True \<rparr>,
              pending := pending rt @ [AwaitFontsReady] \<rparr>)"

text \<open>The \<open>finally\<close> block, which ends the call at position \<open>i\<close> of \<open>pending\<close>.\<close>

definition finallyExport :: "nat \<Rightarrow> Runtime \<Rightarrow> Runtime" where
  "finallyExport i rt =
     rt\<lparr> app := (app rt)\<lparr> isExporting := False \<rparr>,
         pending := take i (pending rt) @ drop (Suc i) (pending rt) \<rparr>"

text \<open>
  The continuation of the call at position \<open>i\<close> when the promise it awaits settles. A
  fulfilled promise leads to the next \<open>await\<close>, the last of them to the download and the
  \<open>finally\<close> block; a rejected one to the \<open>catch\<close> block and the \<open>finally\<close> block.
  An exception in the code after a fulfilled promise leads to the \<open>catch\<close> block and the
  \<open>finally\<close> block as well, without a download; after the settle delay that code is the
  call of \<open>html2canvas\<close>, which then has been made.
\<close>

definition resumeExport :: "nat \<Rightarrow> Settled \<Rightarrow> Runtime \<Rightarrow> Runtime" where
  "resumeExport i outcome rt =
     (if i < length (pending rt) then
        (case outcome of
           Rejected \<Rightarrow> finallyExport i (rt\<lparr> alerts := Suc (alerts rt) \<rparr>)
         | Thrown \<Rightarrow>
             finallyExport i
               (rt\<lparr> alerts := Suc (alerts rt),
                    rasterizerCalls :=
                      (if pending rt ! i = AwaitSettleDelay then Suc (rasterizerCalls rt)
                       else rasterizerCalls rt) \<rparr>)
         | Fulfilled \<Rightarrow>
             (case pending rt ! i of
                AwaitFontsReady \<Rightarrow> rt\<lparr> pending := (pending rt)[i := AwaitSettleDelay] \<rparr>
              | AwaitSettleDelay \<Rightarrow>
                  rt\<lparr> pending := (pending rt)[i := AwaitCanvas],
                      rasterizerCalls := Suc (rasterizerCalls rt) \<rparr>
              | AwaitCanvas \<Rightarrow> finallyExport i (rt\<lparr> downloads := Suc (downloads rt) \<rparr>)))
      else rt)"

datatype ExportEvent = ExportRequest "DOMRect option" | PromiseSettled nat Settled

fun exportStep :: "Runtime \<Rightarrow> ExportEvent \<Rightarrow> Runtime" where
  "exportStep rt (ExportRequest previewRef) = downloadPost previewRef rt"
| "exportStep rt (PromiseSettled i outcome) = resumeExport i outcome rt"

definition runExport :: "ExportEvent list \<Rightarrow> Runtime" where
  "runExport events = foldl exportStep initialRuntime events"

text \<open>The number of calls of \<open>html2canvas\<close> that have not returned yet.\<close>

definition rasterizing :: "Runtime \<Rightarrow> nat" where
  "rasterizing rt = length (filter (\<lambda>a. a = AwaitCanvas) (pending rt))"

section \<open>The mappers and the invariant as the specification words them\<close>

definition clamp :: "real \<Rightarrow> real \<Rightarrow> real \<Rightarrow> real" where
  "clamp v lo hi = max lo (min hi v)"

definition backgroundMapper :: "real \<Rightarrow> real \<Rightarrow> DOMRect \<Rightarrow> NewsPost \<Rightarrow> NewsPost" where
  "backgroundMapper pointerX pointerY rect doc =
     doc\<lparr> mainImageY := clamp (((pointerY - rect_top rect) / rect_height rect) * 100) 0 100 \<rparr>"

definition circleMapper :: "real \<Rightarrow> real \<Rightarrow> DOMRect \<Rightarrow> NewsPost \<Rightarrow> NewsPost" where
  "circleMapper pointerX pointerY rect doc =
     (let xPct = ((rect_right rect - pointerX) / rect_width rect) * 100;
          yPct = ((pointerY - rect_top rect) / rect_height rect) * 100
      in doc\<lparr> circleX := clamp (xPct - circleSize doc / 2) 0 (100 - circleSize doc),
              circleY := clamp (yPct - circleSize doc / 2) 0 (100 - circleSize doc) \<rparr>)"

definition headlineMapper :: "real \<Rightarrow> real \<Rightarrow> DOMRect \<Rightarrow> NewsPost \<Rightarrow> NewsPost" where
  "headlineMapper pointerX pointerY rect doc =
     (let fromBottom = rect_bottom rect - pointerY;
          baseline = (if format doc = Format_9_16 then 180 else 100)
      in doc\<lparr> headlineY := fromBottom - baseline \<rparr>)"

fun mapper :: "Region \<Rightarrow> real \<Rightarrow> real \<Rightarrow> DOMRect \<Rightarrow> NewsPost \<Rightarrow> NewsPost" where
  "mapper Background = backgroundMapper"
| "mapper Circle = circleMapper"
| "mapper Headline = headlineMapper"

definition circleInBounds :: "NewsPost \<Rightarrow> bool" where
  "circleInBounds doc \<longleftrightarrow>
     circleX doc + circleSize doc \<le> 100 \<and> circleY doc + circleSize doc \<le> 100"

text \<open>The preview rectangle of the testable properties: 600 by 600 at the origin.\<close>

definition rect600 :: DOMRect where
  "rect600 = \<lparr> rect_left = 0, rect_top = 0, rect_width = 600, rect_height = 600,
               rect_right = 600, rect_bottom = 600 \<rparr>"

text \<open>The function that \<open>renderHeadline\<close> maps over the parts.\<close>

definition toNode :: "NewsPost \<Rightarrow> string \<Rightarrow> Node" where
  "toNode p part =
     (if startsWith part (CHR ''{'') \<and> endsWith part (CHR ''}'')
      then Span (highlightColor p) (slice_1_neg1 part)
      else Text part)"

definition braceFree :: "string \<Rightarrow> bool" where
  "braceFree t \<longleftrightarrow> filter isBrace t = []"

text \<open>A part of the split of a well-formed headline: text without braces, or one pair.\<close>

definition partOk :: "string \<Rightarrow> bool" where
  "partOk part \<longleftrightarrow>
     braceFree part \<or> (\<exists>inner. part = CHR ''{'' # inner @ ''}'' \<and> braceFree inner)"

text \<open>At most one call of \<open>downloadPost\<close> waits, and \<open>isExporting\<close> says whether one does.\<close>

definition exportInv :: "Runtime \<Rightarrow> bool" where
  "exportInv rt \<longleftrightarrow>
     length (pending rt) \<le> 1 \<and> (isExporting (app rt) \<longleftrightarrow> pending rt \<noteq> [])"

section \<open>Pointer moves\<close>

lemma clamp_bounds: "lo \<le> hi \<Longrightarrow> lo \<le> clamp v lo hi \<and> clamp v lo hi \<le> hi"
  by (simp add: clamp_def)

lemma post_move:
  "dragTarget s = Some t \<Longrightarrow>
   post (handlePointerMove cx cy (Some r) s) = mapper t cx cy r (post s)"
  by (cases t)
    (simp_all add: handlePointerMove_def Let_def movePost_def backgroundMapper_def
      circleMapper_def headlineMapper_def clamp_def)

lemma move_inactive: "dragTarget s = None \<Longrightarrow> handlePointerMove cx cy pr s = s"
  by (simp add: handlePointerMove_def)

lemma move_unmounted: "handlePointerMove cx cy None s = s"
  by (simp add: handlePointerMove_def split: option.splits)

lemma move_classifier:
  "dragTarget (handlePointerMove cx cy pr s) = dragTarget s \<and>
   dragStart (handlePointerMove cx cy pr s) = dragStart s"
  by (simp add: handlePointerMove_def Let_def split: option.splits)

lemma move_isDragging:
  "dragTarget s = Some t \<Longrightarrow>
   isDragging (handlePointerMove cx cy (Some r) s) \<longleftrightarrow>
     isDragging s \<or> \<bar>cx - pt_x (dragStart s)\<bar> > 5 \<or> \<bar>cy - pt_y (dragStart s)\<bar> > 5"
  by (simp add: handlePointerMove_def Let_def)

lemma move_isDragging_mono: "isDragging s \<Longrightarrow> isDragging (handlePointerMove cx cy pr s)"
  by (simp add: handlePointerMove_def Let_def split: option.splits)

lemma down_state:
  "dragTarget (handlePointerDown x0 y0 target s) = target"
  "pt_x (dragStart (handlePointerDown x0 y0 target s)) = x0"
  "pt_y (dragStart (handlePointerDown x0 y0 target s)) = y0"
  "isDragging (handlePointerDown x0 y0 target s) = False"
  "post (handlePointerDown x0 y0 target s) = post s"
  by (simp_all add: handlePointerDown_def)

lemma circle_move_bounds:
  assumes "dragTarget s = Some Circle"
    and "circleSize (post s) \<le> 100"
  shows "0 \<le> circleX (post (handlePointerMove cx cy (Some r) s)) \<and>
         circleX (post (handlePointerMove cx cy (Some r) s)) \<le> 100 - circleSize (post s) \<and>
         0 \<le> circleY (post (handlePointerMove cx cy (Some r) s)) \<and>
         circleY (post (handlePointerMove cx cy (Some r) s)) \<le> 100 - circleSize (post s) \<and>
         circleSize (post (handlePointerMove cx cy (Some r) s)) = circleSize (post s)"
proof -
  define hi where "hi = 100 - circleSize (post s)"
  define p' where "p' = post (handlePointerMove cx cy (Some r) s)"
  have le: "0 \<le> hi" using assms(2) by (simp add: hi_def)
  obtain a b where X: "circleX p' = clamp a 0 hi" and Y: "circleY p' = clamp b 0 hi"
    and S: "circleSize p' = circleSize (post s)"
    using assms(1) by (simp add: p'_def post_move circleMapper_def Let_def hi_def)
  from clamp_bounds [OF le, of a] clamp_bounds [OF le, of b]
  show ?thesis unfolding p'_def [symmetric] X Y S hi_def by simp
qed

text \<open>
  C1, as amended: while a drag target is active and the preview is mounted, every
  pointer-move replaces the document by the output of the target's mapper, whatever the
  displacement from the start point; the 5-pixel threshold decides the dragged flag only,
  which holds after the move exactly if it held before or one of the two displacements
  exceeds 5. Without an active target a pointer-move changes nothing.
\<close>

theorem pointer_move_maps_at_any_displacement:
  "(dragTarget s = Some t \<longrightarrow>
      post (handlePointerMove cx cy (Some rect) s) = mapper t cx cy rect (post s) \<and>
      (isDragging (handlePointerMove cx cy (Some rect) s) \<longleftrightarrow>
         isDragging s \<or> \<bar>cx - pt_x (dragStart s)\<bar> > 5 \<or> \<bar>cy - pt_y (dragStart s)\<bar> > 5)) \<and>
   (dragTarget s = None \<longrightarrow> handlePointerMove cx cy previewRef s = s)"
  using post_move move_isDragging move_inactive by blast

theorem pointer_move_maps_at_any_displacement_witness:
  "dragTarget (handlePointerDown 100 100 (Some Background) initialState) = Some Background \<and>
   post (handlePointerMove 103 102 (Some rect600)
          (handlePointerDown 100 100 (Some Background) initialState))
     = initialPost\<lparr> mainImageY := 17 \<rparr> \<and>
   \<not> isDragging (handlePointerMove 103 102 (Some rect600)
          (handlePointerDown 100 100 (Some Background) initialState)) \<and>
   dragTarget initialState = None \<and>
   handlePointerMove 103 102 (Some rect600) initialState = initialState"
proof -
  have active: "dragTarget (handlePointerDown 100 100 (Some Background) initialState)
                  = Some Background"
    by (simp add: down_state)
  have idle: "dragTarget initialState = None"
    by (simp add: initialState_def)
  have "mapper Background 103 102 rect600
          (post (handlePointerDown 100 100 (Some Background) initialState))
        = initialPost\<lparr> mainImageY := 17 \<rparr>"
    by (simp add: down_state backgroundMapper_def clamp_def rect600_def initialState_def)
  then show ?thesis
    using active idle
      pointer_move_maps_at_any_displacement
        [of "handlePointerDown 100 100 (Some Background) initialState" Background
            103 102 rect600]
      pointer_move_maps_at_any_displacement
        [of initialState Background 103 102 rect600 "Some rect600"]
    by (simp add: down_state)
qed

text \<open>
  C1, as stated, fails: a pointer-down on the background at (100, 100) followed by a
  pointer-move to (103, 102), three and two pixels from the start point, leaves the dragged
  flag unset and yet moves \<open>mainImageY\<close> from 50 to 17.
\<close>

theorem small_move_mutates_document:
  "\<bar>103 - pt_x (dragStart (handlePointerDown 100 100 (Some Background) initialState))\<bar> \<le> 5 \<and>
   \<bar>102 - pt_y (dragStart (handlePointerDown 100 100 (Some Background) initialState))\<bar> \<le> 5 \<and>
   \<not> isDragging (handlePointerMove 103 102 (Some rect600)
          (handlePointerDown 100 100 (Some Background) initialState)) \<and>
   mainImageY (post (handlePointerDown 100 100 (Some Background) initialState)) = 50 \<and>
   mainImageY (post (handlePointerMove 103 102 (Some rect600)
          (handlePointerDown 100 100 (Some Background) initialState))) = 17"
  by (simp add: handlePointerDown_def handlePointerMove_def movePost_def Let_def
      rect600_def initialState_def initialPost_def)

text \<open>
  C2: for every pointer position, however far outside the preview rectangle, and every
  document whose \<open>circleSize\<close> lies in [10, 70], a pointer-move of a circle drag leaves
  \<open>circleX\<close> and \<open>circleY\<close> between 0 and \<open>100 - circleSize\<close>, so that
  \<open>circleX + circleSize \<le> 100\<close> and \<open>circleY + circleSize \<le> 100\<close>.
\<close>

theorem circle_drag_stays_in_bounds:
  assumes "dragTarget s = Some Circle"
    and "0 < rect_width rect" and "0 < rect_height rect"
    and "10 \<le> circleSize (post s)" and "circleSize (post s) \<le> 70"
  shows "let doc = post (handlePointerMove cx cy (Some rect) s) in
           0 \<le> circleX doc \<and> circleX doc \<le> 100 - circleSize doc \<and>
           0 \<le> circleY doc \<and> circleY doc \<le> 100 - circleSize doc \<and>
           circleX doc + circleSize doc \<le> 100 \<and> circleY doc + circleSize doc \<le> 100"
proof -
  have "circleSize (post s) \<le> 100" using assms(5) by simp
  from circle_move_bounds [OF assms(1) this, of cx cy rect]
  show ?thesis by (simp add: Let_def)
qed

theorem circle_drag_stays_in_bounds_witness:
  "dragTarget (handlePointerDown 300 300 (Some Circle) initialState) = Some Circle \<and>
   0 < rect_width rect600 \<and> 0 < rect_height rect600 \<and>
   10 \<le> circleSize (post (handlePointerDown 300 300 (Some Circle) initialState)) \<and>
   circleSize (post (handlePointerDown 300 300 (Some Circle) initialState)) \<le> 70 \<and>
   (let doc = post (handlePointerMove (- 5000) 9000 (Some rect600)
                     (handlePointerDown 300 300 (Some Circle) initialState)) in
      0 \<le> circleX doc \<and> circleX doc \<le> 100 - circleSize doc \<and>
      0 \<le> circleY doc \<and> circleY doc \<le> 100 - circleSize doc \<and>
      circleX doc + circleSize doc \<le> 100 \<and> circleY doc + circleSize doc \<le> 100)"
proof -
  have h1: "dragTarget (handlePointerDown 300 300 (Some Circle) initialState) = Some Circle"
    by (simp add: down_state)
  have h2: "0 < rect_width rect600" and h3: "0 < rect_height rect600"
    by (simp_all add: rect600_def)
  have h4: "10 \<le> circleSize (post (handlePointerDown 300 300 (Some Circle) initialState))"
    and h5: "circleSize (post (handlePointerDown 300 300 (Some Circle) initialState)) \<le> 70"
    by (simp_all add: down_state initialState_def initialPost_def)
  from circle_drag_stays_in_bounds [OF h1 h2 h3 h4 h5, of "- 5000" 9000]
  show ?thesis using h1 h2 h3 h4 h5 by simp
qed

text \<open>
  C5: while a target is active, a pointer-move whose displacement from the start point is
  exactly 5 pixels in each axis leaves the dragged flag as it was, and one whose displacement
  is 6 pixels in either axis sets it: the flag is set exactly when a displacement is
  strictly greater than 5.
\<close>

theorem drag_threshold_is_strict:
  assumes "dragTarget s = Some t"
  shows "(\<bar>cx - pt_x (dragStart s)\<bar> = 5 \<and> \<bar>cy - pt_y (dragStart s)\<bar> = 5 \<longrightarrow>
            isDragging (handlePointerMove cx cy (Some rect) s) = isDragging s) \<and>
         (\<bar>cx - pt_x (dragStart s)\<bar> = 6 \<or> \<bar>cy - pt_y (dragStart s)\<bar> = 6 \<longrightarrow>
            isDragging (handlePointerMove cx cy (Some rect) s)) \<and>
         (isDragging (handlePointerMove cx cy (Some rect) s) \<longleftrightarrow>
            isDragging s \<or> 5 < \<bar>cx - pt_x (dragStart s)\<bar> \<or> 5 < \<bar>cy - pt_y (dragStart s)\<bar>)"
  using move_isDragging [OF assms, of cx cy rect] by auto

theorem drag_threshold_is_strict_witness:
  "dragTarget (handlePointerDown 100 100 (Some Headline) initialState) = Some Headline \<and>
   \<not> isDragging (handlePointerDown 100 100 (Some Headline) initialState) \<and>
   \<not> isDragging (handlePointerMove 105 95 (Some rect600)
                   (handlePointerDown 100 100 (Some Headline) initialState)) \<and>
   isDragging (handlePointerMove 100 106 (Some rect600)
                   (handlePointerDown 100 100 (Some Headline) initialState)) \<and>
   isDragging (handlePointerMove 94 100 (Some rect600)
                   (handlePointerDown 100 100 (Some Headline) initialState))"
proof -
  have h: "dragTarget (handlePointerDown 100 100 (Some Headline) initialState) = Some Headline"
    by (simp add: down_state)
  show ?thesis
    using h drag_threshold_is_strict [OF h, of 105 95 rect600]
      drag_threshold_is_strict [OF h, of 100 106 rect600]
      drag_threshold_is_strict [OF h, of 94 100 rect600]
    by (simp add: down_state)
qed

text \<open>
  C6: with the preview rectangle of width and height 600 at the origin and
  \<open>circleSize = 30\<close>, a pointer-move of a circle drag at (450, 300) gives \<open>circleX = 10\<close>
  and \<open>circleY = 35\<close>; in general, for a rectangle of positive width and height, the move
  sets \<open>circleX\<close> to \<open>clamp(xPct - circleSize/2, 0, 100 - circleSize)\<close> and \<open>circleY\<close> to
  \<open>clamp(yPct - circleSize/2, 0, 100 - circleSize)\<close>, where
  \<open>xPct = ((rect.right - pointerX) / rect.width) * 100\<close> and
  \<open>yPct = ((pointerY - rect.top) / rect.height) * 100\<close>.
\<close>

theorem circle_center_mapping:
  assumes "dragTarget s = Some Circle"
  shows "(circleSize (post s) = 30 \<longrightarrow>
            circleX (post (handlePointerMove 450 300 (Some rect600) s)) = 10 \<and>
            circleY (post (handlePointerMove 450 300 (Some rect600) s)) = 35) \<and>
         (0 < rect_width rect \<and> 0 < rect_height rect \<longrightarrow>
            circleX (post (handlePointerMove cx cy (Some rect) s)) =
              clamp (((rect_right rect - cx) / rect_width rect) * 100 - circleSize (post s) / 2)
                0 (100 - circleSize (post s)) \<and>
            circleY (post (handlePointerMove cx cy (Some rect) s)) =
              clamp (((cy - rect_top rect) / rect_height rect) * 100 - circleSize (post s) / 2)
                0 (100 - circleSize (post s)))"
  using assms
  by (simp add: handlePointerMove_def Let_def movePost_def clamp_def rect600_def)

theorem circle_center_mapping_witness:
  "dragTarget (handlePointerDown 450 300 (Some Circle) initialState) = Some Circle \<and>
   circleSize (post (handlePointerDown 450 300 (Some Circle) initialState)) = 30 \<and>
   circleX (post (handlePointerMove 450 300 (Some rect600)
                   (handlePointerDown 450 300 (Some Circle) initialState))) = 10 \<and>
   circleY (post (handlePointerMove 450 300 (Some rect600)
                   (handlePointerDown 450 300 (Some Circle) initialState))) = 35 \<and>
   0 < rect_width rect600 \<and> 0 < rect_height rect600 \<and>
   circleX (post (handlePointerMove 60 120 (Some rect600)
                   (handlePointerDown 450 300 (Some Circle) initialState))) = 70 \<and>
   circleY (post (handlePointerMove 60 120 (Some rect600)
                   (handlePointerDown 450 300 (Some Circle) initialState))) = 5"
proof -
  have h: "dragTarget (handlePointerDown 450 300 (Some Circle) initialState) = Some Circle"
    by (simp add: down_state)
  have size: "circleSize (post (handlePointerDown 450 300 (Some Circle) initialState)) = 30"
    by (simp add: down_state initialState_def initialPost_def)
  have pos: "0 < rect_width rect600" "0 < rect_height rect600"
    by (simp_all add: rect600_def)
  show ?thesis
    using h size pos circle_center_mapping [OF h, of rect600 60 120]
    by (simp add: clamp_def rect600_def)
qed

text \<open>
  C8: a pointer-move of a headline drag sets \<open>headlineY\<close> to
  \<open>(rect.bottom - pointerY) - baseline\<close>, where the baseline is 180 for the format 9:16
  and 100 for the other formats; the value is not clamped, and no other field changes.
\<close>

theorem headline_drag_offset:
  assumes "dragTarget s = Some Headline"
  shows "post (handlePointerMove cx cy (Some rect) s) =
           (post s)\<lparr> headlineY :=
              (rect_bottom rect - cy) - (if format (post s) = Format_9_16 then 180 else 100) \<rparr>"
  using assms by (simp add: handlePointerMove_def Let_def movePost_def)

theorem headline_drag_offset_witness:
  "dragTarget (handlePointerDown 300 500 (Some Headline) initialState) = Some Headline \<and>
   post (handlePointerMove 300 4000 (Some rect600)
          (handlePointerDown 300 500 (Some Headline) initialState))
     = initialPost\<lparr> headlineY := - 3500 \<rparr>"
proof -
  have h: "dragTarget (handlePointerDown 300 500 (Some Headline) initialState) = Some Headline"
    by (simp add: down_state)
  show ?thesis
    using h headline_drag_offset [OF h, of 300 4000 rect600]
    by (simp add: down_state initialState_def initialPost_def rect600_def)
qed

text \<open>
  C9: for a preview rectangle of positive height, a pointer-move of a background drag sets
  \<open>mainImageY\<close> to \<open>clamp(((pointerY - rect.top) / rect.height) * 100, 0, 100)\<close>, a value
  in [0, 100], and changes no other field of the document.
\<close>

theorem background_drag_pan:
  assumes "dragTarget s = Some Background" and "0 < rect_height rect"
  shows "post (handlePointerMove cx cy (Some rect) s) =
           (post s)\<lparr> mainImageY :=
              clamp (((cy - rect_top rect) / rect_height rect) * 100) 0 100 \<rparr> \<and>
         0 \<le> mainImageY (post (handlePointerMove cx cy (Some rect) s)) \<and>
         mainImageY (post (handlePointerMove cx cy (Some rect) s)) \<le> 100"
  using assms(1) by (simp add: handlePointerMove_def Let_def movePost_def clamp_def)

theorem background_drag_pan_witness:
  "dragTarget (handlePointerDown 10 10 (Some Background) initialState) = Some Background \<and>
   0 < rect_height rect600 \<and>
   post (handlePointerMove 999 150 (Some rect600)
          (handlePointerDown 10 10 (Some Background) initialState))
     = initialPost\<lparr> mainImageY := 25 \<rparr> \<and>
   post (handlePointerMove 999 (- 40) (Some rect600)
          (handlePointerDown 10 10 (Some Background) initialState))
     = initialPost\<lparr> mainImageY := 0 \<rparr>"
proof -
  have h: "dragTarget (handlePointerDown 10 10 (Some Background) initialState) = Some Background"
    by (simp add: down_state)
  have pos: "0 < rect_height rect600"
    by (simp add: rect600_def)
  show ?thesis
    using h pos background_drag_pan [OF h pos, of 999 150]
      background_drag_pan [OF h pos, of 999 "- 40"]
    by (simp add: down_state initialState_def clamp_def rect600_def)
qed

section \<open>Gestures\<close>

lemma handlePointerMoveOn_same:
  "handlePointerMoveOn cx cy pr s s = handlePointerMove cx cy pr s"
  by (simp add: handlePointerMoveOn_def handlePointerMove_def)

lemma pointerMove_rendered:
  "rendered v = latest v \<Longrightarrow>
   latest (pointerMove cx cy pr v) = handlePointerMove cx cy pr (latest v)"
  by (simp add: pointerMove_def handlePointerMoveOn_same)

lemma pointerUp_resets:
  "dragTarget (latest (snd (pointerUp target v))) = None \<and>
   \<not> isDragging (latest (snd (pointerUp target v)))"
  by (simp add: pointerUp_def handlePointerUp_def)

lemma pointerUp_rendered_drag:
  "isDragging (rendered v) \<Longrightarrow> fst (pointerUp target v) = []"
  by (simp add: pointerUp_def handlePointerUp_def)

text \<open>
  C4 fails on the code. A pointer-down on the background at (100, 100) is rendered; a
  pointer-move to (140, 100), 40 pixels from the start point, queues
  \<open>setIsDragging(true)\<close>; the pointer-up that is handled before the next render still
  reads \<open>isDragging = false\<close> and clicks the file input, although a move of the gesture
  exceeded the threshold. Had the move been rendered first, the same pointer-up would click
  nothing. The pointer-up leaves \<open>dragTarget\<close> at \<open>null\<close> and \<open>isDragging\<close> at
  \<open>false\<close> for the next render.
\<close>

theorem early_pointer_up_taps_after_drag:
  "5 < \<bar>140 - pt_x (dragStart (rendered
          (commit (pointerDown 100 100 (Some Background) initialView))))\<bar> \<and>
   isDragging (latest (pointerMove 140 100 (Some rect600)
          (commit (pointerDown 100 100 (Some Background) initialView)))) \<and>
   fst (previewPointerUp (pointerMove 140 100 (Some rect600)
          (commit (pointerDown 100 100 (Some Background) initialView))))
     = [ClickFileInput] \<and>
   fst (previewPointerUp (commit (pointerMove 140 100 (Some rect600)
          (commit (pointerDown 100 100 (Some Background) initialView)))))
     = [] \<and>
   dragTarget (latest (snd (previewPointerUp (pointerMove 140 100 (Some rect600)
          (commit (pointerDown 100 100 (Some Background) initialView)))))) = None \<and>
   \<not> isDragging (latest (snd (previewPointerUp (pointerMove 140 100 (Some rect600)
          (commit (pointerDown 100 100 (Some Background) initialView))))))"
  by (simp add: previewPointerUp_def pointerUp_def pointerMove_def pointerDown_def
      commit_def initialView_def handlePointerUp_def handlePointerMoveOn_def
      handlePointerDown_def Let_def)

section \<open>The diameter control\<close>

text \<open>
  C10: the diameter control replaces \<open>circleSize\<close> and nothing else, \<open>circleX\<close> and
  \<open>circleY\<close> included; when \<open>circleX\<close> plus the new size exceeds 100 the document then
  violates the circle-in-bounds condition; pointer-moves of a background or headline drag
  leave the condition as it is, and the first pointer-move of the next circle drag
  establishes it again (new size in [10, 70], preview rectangle of positive size).
\<close>

theorem circle_size_control_frame:
  "post (onChangeCircleSize n s) = (post s)\<lparr> circleSize := of_int n \<rparr> \<and>
   circleX (post (onChangeCircleSize n s)) = circleX (post s) \<and>
   circleY (post (onChangeCircleSize n s)) = circleY (post s) \<and>
   (circleX (post s) + of_int n > 100 \<longrightarrow> \<not> circleInBounds (post (onChangeCircleSize n s))) \<and>
   (region \<noteq> Circle \<longrightarrow>
      circleInBounds (post (handlePointerMove cx cy previewRef
         (handlePointerDown x0 y0 (Some region) (onChangeCircleSize n s))))
      = circleInBounds (post (onChangeCircleSize n s))) \<and>
   (10 \<le> n \<and> n \<le> 70 \<and> 0 < rect_width rect \<and> 0 < rect_height rect \<longrightarrow>
      circleInBounds (post (handlePointerMove cx cy (Some rect)
         (handlePointerDown x0 y0 (Some Circle) (onChangeCircleSize n s)))))"
proof -
  let ?s1 = "onChangeCircleSize n s"
  have frame: "post ?s1 = (post s)\<lparr> circleSize := of_int n \<rparr>"
    by (simp add: onChangeCircleSize_def)
  have viol: "\<not> circleInBounds (post ?s1)" if "circleX (post s) + of_int n > 100"
    using that by (simp add: frame circleInBounds_def)
  have other: "circleInBounds (post (handlePointerMove cx cy previewRef
         (handlePointerDown x0 y0 (Some region) ?s1))) = circleInBounds (post ?s1)"
    if "region \<noteq> Circle"
  proof (cases previewRef)
    case None
    then show ?thesis by (simp add: move_unmounted down_state)
  next
    case (Some r)
    show ?thesis
      using that unfolding Some
      by (cases region)
        (simp_all add: post_move [OF down_state(1)] down_state backgroundMapper_def
          headlineMapper_def circleInBounds_def Let_def)
  qed
  have again: "circleInBounds (post (handlePointerMove cx cy (Some rect)
         (handlePointerDown x0 y0 (Some Circle) ?s1)))"
    if "10 \<le> n" "n \<le> 70"
  proof -
    have "circleSize (post (handlePointerDown x0 y0 (Some Circle) ?s1)) \<le> 100"
      using that by (simp add: down_state frame)
    from circle_move_bounds [OF down_state(1) this, of cx cy rect]
    show ?thesis by (simp add: circleInBounds_def)
  qed
  show ?thesis using frame viol other again by simp
qed


theorem circle_size_control_frame_witness:
  "circleX (post (handlePointerMove 0 300 (Some rect600)
      (handlePointerDown 420 90 (Some Circle) initialState))) = 70 \<and>
   circleInBounds (post (handlePointerMove 0 300 (Some rect600)
      (handlePointerDown 420 90 (Some Circle) initialState))) \<and>
   \<not> circleInBounds (post (onChangeCircleSize 70 (handlePointerMove 0 300 (Some rect600)
      (handlePointerDown 420 90 (Some Circle) initialState)))) \<and>
   \<not> circleInBounds (post (handlePointerMove 300 300 (Some rect600)
      (handlePointerDown 300 200 (Some Background)
        (onChangeCircleSize 70 (handlePointerMove 0 300 (Some rect600)
          (handlePointerDown 420 90 (Some Circle) initialState)))))) \<and>
   circleInBounds (post (handlePointerMove 300 300 (Some rect600)
      (handlePointerDown 300 200 (Some Circle)
        (onChangeCircleSize 70 (handlePointerMove 0 300 (Some rect600)
          (handlePointerDown 420 90 (Some Circle) initialState))))))"
proof -
  let ?s = "handlePointerMove 0 300 (Some rect600)
              (handlePointerDown 420 90 (Some Circle) initialState)"
  have x: "circleX (post ?s) = 70" and ok: "circleInBounds (post ?s)"
    by (simp_all add: handlePointerMove_def handlePointerDown_def movePost_def Let_def
        rect600_def initialState_def initialPost_def circleInBounds_def)
  have pos: "0 < rect_width rect600" "0 < rect_height rect600"
    by (simp_all add: rect600_def)
  have big: "circleX (post ?s) + of_int 70 > 100"
    using x by simp
  have other: "Background \<noteq> Circle"
    by simp
  have size: "10 \<le> (70 :: int) \<and> (70 :: int) \<le> 70 \<and>
      0 < rect_width rect600 \<and> 0 < rect_height rect600"
    using pos by simp
  note inst =
    circle_size_control_frame [of 70 ?s Background 300 300 "Some rect600" 300 200 rect600]
  from inst big have viol: "\<not> circleInBounds (post (onChangeCircleSize 70 ?s))"
    by blast
  from inst other have same:
    "circleInBounds (post (handlePointerMove 300 300 (Some rect600)
        (handlePointerDown 300 200 (Some Background) (onChangeCircleSize 70 ?s))))
     = circleInBounds (post (onChangeCircleSize 70 ?s))"
    by blast
  from inst size have again:
    "circleInBounds (post (handlePointerMove 300 300 (Some rect600)
        (handlePointerDown 300 200 (Some Circle) (onChangeCircleSize 70 ?s))))"
    by blast
  show ?thesis
    using x ok viol same again by blast
qed

section \<open>Headline segmentation: proofs\<close>

lemma braceFree_simps:
  "braceFree []" "braceFree (c # cs) \<longleftrightarrow> \<not> isBrace c \<and> braceFree cs"
  "braceFree (xs @ ys) \<longleftrightarrow> braceFree xs \<and> braceFree ys"
  by (auto simp: braceFree_def)

lemma matchBody_source:
  "matchBody cs = Some (inner, rest) \<Longrightarrow> cs = inner @ CHR ''}'' # rest"
  by (induction cs arbitrary: inner) (auto split: if_splits option.splits)

lemma matchBraces_source: "matchBraces s = Some (m, rest) \<Longrightarrow> s = m @ rest"
  by (cases s) (auto split: if_splits option.splits dest: matchBody_source)

lemma concat_splitLoop: "concat (splitLoop seg s) = seg @ s"
proof (induction seg s rule: splitLoop.induct)
  case (1 seg)
  show ?case by simp
next
  case (2 seg c cs)
  show ?case
  proof (cases "matchBraces (c # cs)")
    case None
    with "2.IH"(1) show ?thesis by simp
  next
    case (Some a)
    obtain m rest where a: "a = (m, rest)" by (cases a)
    have src: "m @ rest = c # cs" using matchBraces_source Some a by metis
    have "concat (splitLoop [] rest) = rest"
      using "2.IH"(2) Some a by simp
    then have "concat (splitLoop seg (c # cs)) = seg @ m @ rest"
      using Some a by simp
    then show ?thesis using src by simp
  qed
qed

lemma slice_source:
  assumes "startsWith part (CHR ''{'')" "endsWith part (CHR ''}'')"
  shows "CHR ''{'' # slice_1_neg1 part @ ''}'' = part"
proof -
  obtain cs where p: "part = CHR ''{'' # cs"
    using assms(1) by (auto simp: startsWith_def split: list.splits)
  have "cs \<noteq> []" using assms(2) p by (auto simp: endsWith_def)
  then obtain ds where cs: "cs = ds @ ''}''"
    using assms(2) p by (cases cs rule: rev_cases) (auto simp: endsWith_def)
  show ?thesis by (simp add: p cs slice_1_neg1_def)
qed

lemma nodeSource_toNode: "nodeSource (toNode p part) = part"
  using slice_source by (simp add: toNode_def)

lemma renderHeadline_toNode: "renderHeadline p t = map (toNode p) (splitHeadline t)"
  by (simp add: renderHeadline_def toNode_def)

lemma source_render: "concat (map nodeSource (renderHeadline p t)) = t"
  by (simp add: renderHeadline_toNode splitHeadline_def o_def nodeSource_toNode concat_splitLoop)

lemma matchBody_wellBraced:
  "balancedFrom True cs \<Longrightarrow> pairsOnOneLineFrom True cs \<Longrightarrow>
   \<exists>inner rest. matchBody cs = Some (inner, rest) \<and> braceFree inner \<and>
      balancedFrom False rest \<and> pairsOnOneLineFrom False rest"
proof (induction cs)
  case Nil
  then show ?case by simp
next
  case (Cons c cs)
  show ?case
  proof (cases "c = CHR ''}''")
    case True
    with Cons.prems show ?thesis by (simp add: braceFree_simps)
  next
    case False
    with Cons.prems have c: "c \<noteq> CHR ''{''" "\<not> isLineTerminator c"
      and rest: "balancedFrom True cs" "pairsOnOneLineFrom True cs"
      by (auto split: if_splits)
    from Cons.IH[OF rest] obtain inner rest where
      "matchBody cs = Some (inner, rest)" "braceFree inner"
      "balancedFrom False rest" "pairsOnOneLineFrom False rest" by blast
    with False c show ?thesis by (simp add: braceFree_simps isBrace_def)
  qed
qed

lemma splitLoop_wellBraced:
  "balancedFrom False s \<Longrightarrow> pairsOnOneLineFrom False s \<Longrightarrow> braceFree seg \<Longrightarrow>
   list_all partOk (splitLoop seg s)"
proof (induction seg s rule: splitLoop.induct)
  case (1 seg)
  then show ?case by (simp add: partOk_def)
next
  case (2 seg c cs)
  show ?case
  proof (cases "c = CHR ''{''")
    case True
    with "2.prems" have "balancedFrom True cs" "pairsOnOneLineFrom True cs" by simp_all
    from matchBody_wellBraced[OF this] obtain inner rest where
      m: "matchBody cs = Some (inner, rest)" and bf: "braceFree inner"
      and r: "balancedFrom False rest" "pairsOnOneLineFrom False rest" by blast
    have mb: "matchBraces (c # cs) = Some (CHR ''{'' # inner @ ''}'', rest)"
      using True m by simp
    have "list_all partOk (splitLoop [] rest)"
      using "2.IH"(2)[OF mb refl r] by (simp add: braceFree_simps)
    moreover have "partOk seg" using "2.prems"(3) by (simp add: partOk_def)
    moreover have "partOk (CHR ''{'' # inner @ ''}'')" using bf by (auto simp: partOk_def)
    ultimately show ?thesis using mb by simp
  next
    case False
    with "2.prems" have nb: "c \<noteq> CHR ''}''" by (auto split: if_splits)
    have none: "matchBraces (c # cs) = None" using False by simp
    have "balancedFrom False cs" "pairsOnOneLineFrom False cs"
      using "2.prems" False nb by (simp_all split: if_splits)
    moreover have "braceFree (seg @ [c])"
      using "2.prems"(3) False nb by (simp add: braceFree_simps isBrace_def)
    ultimately have "list_all partOk (splitLoop (seg @ [c]) cs)"
      using "2.IH"(1)[OF none] by simp
    then show ?thesis using none by simp
  qed
qed

lemma toNode_partOk:
  assumes "partOk part"
  shows "braceFree (nodeText (toNode p part)) \<and>
         nodeText (toNode p part) = filter (\<lambda>c. \<not> isBrace c) part"
proof (cases "braceFree part")
  case True
  then have ns: "\<not> startsWith part (CHR ''{'')"
    by (auto simp: startsWith_def braceFree_simps isBrace_def split: list.splits)
  have "filter (\<lambda>c. \<not> isBrace c) part = part"
    using True by (simp add: braceFree_def filter_empty_conv)
  then show ?thesis using True ns by (simp add: toNode_def)
next
  case False
  then obtain inner where p: "part = CHR ''{'' # inner @ ''}''" and bf: "braceFree inner"
    using assms by (auto simp: partOk_def)
  have "filter (\<lambda>c. \<not> isBrace c) inner = inner"
    using bf by (simp add: braceFree_def filter_empty_conv)
  then show ?thesis
    using bf by (simp add: p toNode_def startsWith_def endsWith_def slice_1_neg1_def isBrace_def)
qed

text \<open>
  C3, as amended: the headline
  "EZEN NEWS revelado: Novo gerador de posts {revoluciona} design digital" yields exactly
  the text "EZEN NEWS revelado: Novo gerador de posts ", the highlighted "revoluciona" and
  the text " design digital". For every headline whose braces form balanced pairs that are
  not nested and have no line terminator between \<open>{\<close> and \<open>}\<close>, the segmentation keeps
  every character: putting the braces back around the highlighted segments gives the
  headline again, no segment contains a brace, and the segments together are the headline
  without its braces.
\<close>

theorem headline_segmentation:
  "renderHeadline p ''EZEN NEWS revelado: Novo gerador de posts {revoluciona} design digital''
     = [Text ''EZEN NEWS revelado: Novo gerador de posts '',
        Span (highlightColor p) ''revoluciona'', Text '' design digital''] \<and>
   (balancedBraces t \<and> pairsOnOneLine t \<longrightarrow>
      concat (map nodeSource (renderHeadline p t)) = t \<and>
      list_all (\<lambda>n. braceFree (nodeText n)) (renderHeadline p t) \<and>
      concat (map nodeText (renderHeadline p t)) = filter (\<lambda>c. \<not> isBrace c) t)"
proof -
  have ex: "renderHeadline p
      ''EZEN NEWS revelado: Novo gerador de posts {revoluciona} design digital''
     = [Text ''EZEN NEWS revelado: Novo gerador de posts '',
        Span (highlightColor p) ''revoluciona'', Text '' design digital'']"
    by (simp add: renderHeadline_def splitHeadline_def startsWith_def endsWith_def
        slice_1_neg1_def isLineTerminator_def)
  have gen: "concat (map nodeSource (renderHeadline p t)) = t \<and>
      list_all (\<lambda>n. braceFree (nodeText n)) (renderHeadline p t) \<and>
      concat (map nodeText (renderHeadline p t)) = filter (\<lambda>c. \<not> isBrace c) t"
    if wb: "balancedBraces t" "pairsOnOneLine t"
  proof -
    have parts: "list_all partOk (splitHeadline t)"
      using wb splitLoop_wellBraced [of t "[]"]
      by (simp add: splitHeadline_def balancedBraces_def pairsOnOneLine_def braceFree_simps)
    have 1: "list_all (\<lambda>n. braceFree (nodeText n)) (renderHeadline p t)"
      using parts toNode_partOk [THEN conjunct1]
      by (simp add: renderHeadline_toNode list_all_iff)
    have "map nodeText (renderHeadline p t)
            = map (filter (\<lambda>c. \<not> isBrace c)) (splitHeadline t)"
      using parts toNode_partOk [THEN conjunct2]
      by (simp add: renderHeadline_toNode list_all_iff)
    then have "concat (map nodeText (renderHeadline p t)) =
       filter (\<lambda>c. \<not> isBrace c) (concat (splitHeadline t))"
      by (simp add: filter_concat)
    then have 2: "concat (map nodeText (renderHeadline p t)) = filter (\<lambda>c. \<not> isBrace c) t"
      by (simp add: splitHeadline_def concat_splitLoop)
    show ?thesis using source_render 1 2 by simp
  qed
  show ?thesis using ex gen by blast
qed

theorem headline_segmentation_witness:
  "balancedBraces ''a{b}{}c{d e}'' \<and> pairsOnOneLine ''a{b}{}c{d e}'' \<and>
   renderHeadline initialPost ''a{b}{}c{d e}''
     = [Text ''a'', Span ''#00D1FF'' ''b'', Text [], Span ''#00D1FF'' [], Text ''c'',
        Span ''#00D1FF'' ''d e'', Text []] \<and>
   concat (map nodeSource (renderHeadline initialPost ''a{b}{}c{d e}'')) = ''a{b}{}c{d e}'' \<and>
   list_all (\<lambda>n. braceFree (nodeText n)) (renderHeadline initialPost ''a{b}{}c{d e}'') \<and>
   concat (map nodeText (renderHeadline initialPost ''a{b}{}c{d e}'')) = ''abcd e''"
proof -
  have wb: "balancedBraces ''a{b}{}c{d e}''" "pairsOnOneLine ''a{b}{}c{d e}''"
    by (simp_all add: balancedBraces_def pairsOnOneLine_def isLineTerminator_def)
  have nodes: "renderHeadline initialPost ''a{b}{}c{d e}''
     = [Text ''a'', Span ''#00D1FF'' ''b'', Text [], Span ''#00D1FF'' [], Text ''c'',
        Span ''#00D1FF'' ''d e'', Text []]"
    by (simp add: renderHeadline_def splitHeadline_def startsWith_def endsWith_def
        slice_1_neg1_def isLineTerminator_def initialPost_def)
  have stripped: "filter (\<lambda>c. \<not> isBrace c) ''a{b}{}c{d e}'' = ''abcd e''"
    by (simp add: isBrace_def)
  from headline_segmentation [of initialPost "''a{b}{}c{d e}''"] wb
  have "concat (map nodeSource (renderHeadline initialPost ''a{b}{}c{d e}'')) = ''a{b}{}c{d e}'' \<and>
      list_all (\<lambda>n. braceFree (nodeText n)) (renderHeadline initialPost ''a{b}{}c{d e}'') \<and>
      concat (map nodeText (renderHeadline initialPost ''a{b}{}c{d e}''))
        = filter (\<lambda>c. \<not> isBrace c) ''a{b}{}c{d e}''"
    by blast
  then show ?thesis
    unfolding stripped using wb nodes by blast
qed

text \<open>
  C3, as stated, fails: in the headline made of \<open>{a\<close>, a line feed and \<open>}b\<close> the braces
  form one balanced pair, yet the segmentation is the whole headline as one plain segment,
  with both braces kept and nothing highlighted.
\<close>

theorem pair_across_lines_not_highlighted:
  "balancedBraces ''{a\<newline>}b'' \<and>
   renderHeadline initialPost ''{a\<newline>}b'' = [Text ''{a\<newline>}b'']"
  by (simp add: balancedBraces_def renderHeadline_def splitHeadline_def startsWith_def
      endsWith_def slice_1_neg1_def isLineTerminator_def)

section \<open>Export: proofs\<close>

lemma exportInv_initial: "exportInv initialRuntime"
  by (simp add: exportInv_def initialRuntime_def initialState_def)

lemma exportInv_downloadPost: "exportInv rt \<Longrightarrow> exportInv (downloadPost pr rt)"
  by (auto simp: exportInv_def downloadPost_def)

lemma exportInv_finally:
  "exportInv rt \<Longrightarrow> i < length (pending rt) \<Longrightarrow> pending rt' = pending rt \<Longrightarrow>
   exportInv (finallyExport i rt')"
  by (auto simp: exportInv_def finallyExport_def)

lemma exportInv_resume: "exportInv rt \<Longrightarrow> exportInv (resumeExport i out rt)"
proof (cases "i < length (pending rt)")
  case False
  assume "exportInv rt" with False show ?thesis by (simp add: resumeExport_def)
next
  case True
  assume inv: "exportInv rt"
  show ?thesis
  proof (cases out)
    case Rejected
    then show ?thesis using True exportInv_finally[OF inv True] by (simp add: resumeExport_def)
  next
    case Thrown
    then show ?thesis using True exportInv_finally[OF inv True] by (simp add: resumeExport_def)
  next
    case Fulfilled
    show ?thesis
    proof (cases "pending rt ! i")
      case AwaitFontsReady
      then show ?thesis using True Fulfilled inv by (auto simp: resumeExport_def exportInv_def)
    next
      case AwaitSettleDelay
      then show ?thesis using True Fulfilled inv by (auto simp: resumeExport_def exportInv_def)
    next
      case AwaitCanvas
      then show ?thesis using True Fulfilled exportInv_finally[OF inv True] by (simp add: resumeExport_def)
    qed
  qed
qed

lemma exportInv_step: "exportInv rt \<Longrightarrow> exportInv (exportStep rt ev)"
  by (cases ev) (simp_all add: exportInv_downloadPost exportInv_resume)

lemma exportInv_foldl: "exportInv rt \<Longrightarrow> exportInv (foldl exportStep rt evs)"
  by (induction evs arbitrary: rt) (simp_all add: exportInv_step)

lemma exportInv_run: "exportInv (runExport evs)"
  by (simp add: runExport_def exportInv_foldl exportInv_initial)

lemma runExport_append:
  "runExport (before @ after) = foldl exportStep (runExport before) after"
  by (simp add: runExport_def)

text \<open>
  C7: a call of \<open>downloadPost\<close> while \<open>isExporting\<close> is true returns at once and leaves
  everything as it was, so it neither invokes the rasterizer nor is kept for later: a run
  with such a request is the run without it. In every run at most one call of
  \<open>downloadPost\<close> is under way, so at most one invocation of the rasterizer is.
\<close>

theorem export_request_ignored_while_exporting:
  "(isExporting (app rt) \<longrightarrow> downloadPost previewRef rt = rt) \<and>
   (isExporting (app (runExport before)) \<longrightarrow>
      runExport (before @ ExportRequest previewRef # after) = runExport (before @ after)) \<and>
   length (pending (runExport events)) \<le> 1 \<and>
   rasterizing (runExport events) \<le> 1"
proof -
  have ignore: "downloadPost previewRef r = r" if "isExporting (app r)" for r
    using that by (simp add: downloadPost_def)
  have "runExport (before @ ExportRequest previewRef # after) = runExport (before @ after)"
    if "isExporting (app (runExport before))"
    using ignore [OF that] by (simp add: runExport_append)
  moreover have one: "length (pending (runExport events)) \<le> 1"
    using exportInv_run [of events] by (simp add: exportInv_def)
  moreover have "rasterizing (runExport events) \<le> length (pending (runExport events))"
    by (simp add: rasterizing_def)
  ultimately show ?thesis using ignore one by auto
qed

theorem export_request_ignored_while_exporting_witness:
  "isExporting (app (runExport [ExportRequest (Some rect600)])) \<and>
   downloadPost (Some rect600) (runExport [ExportRequest (Some rect600)])
     = runExport [ExportRequest (Some rect600)] \<and>
   runExport ([ExportRequest (Some rect600)] @ ExportRequest (Some rect600) #
              [PromiseSettled 0 Fulfilled, PromiseSettled 0 Fulfilled])
     = runExport ([ExportRequest (Some rect600)] @
              [PromiseSettled 0 Fulfilled, PromiseSettled 0 Fulfilled]) \<and>
   rasterizerCalls (runExport ([ExportRequest (Some rect600)] @
              [PromiseSettled 0 Fulfilled, PromiseSettled 0 Fulfilled])) = 1 \<and>
   rasterizing (runExport ([ExportRequest (Some rect600)] @
              [PromiseSettled 0 Fulfilled, PromiseSettled 0 Fulfilled])) = 1"
proof -
  have busy: "isExporting (app (runExport [ExportRequest (Some rect600)]))"
    by (simp add: runExport_def downloadPost_def)
  have calls: "rasterizerCalls (runExport ([ExportRequest (Some rect600)] @
              [PromiseSettled 0 Fulfilled, PromiseSettled 0 Fulfilled])) = 1"
    "rasterizing (runExport ([ExportRequest (Some rect600)] @
              [PromiseSettled 0 Fulfilled, PromiseSettled 0 Fulfilled])) = 1"
    by (simp_all add: runExport_def downloadPost_def resumeExport_def rasterizing_def
        initialRuntime_def initialState_def)
  note inst = export_request_ignored_while_exporting
      [of "runExport [ExportRequest (Some rect600)]" "Some rect600"
          "[ExportRequest (Some rect600)]"
          "[PromiseSettled 0 Fulfilled, PromiseSettled 0 Fulfilled]" "[]"]
  from inst busy have one:
    "downloadPost (Some rect600) (runExport [ExportRequest (Some rect600)])
       = runExport [ExportRequest (Some rect600)]"
    by blast
  from inst busy have two:
    "runExport ([ExportRequest (Some rect600)] @ ExportRequest (Some rect600) #
              [PromiseSettled 0 Fulfilled, PromiseSettled 0 Fulfilled])
     = runExport ([ExportRequest (Some rect600)] @
              [PromiseSettled 0 Fulfilled, PromiseSettled 0 Fulfilled])"
    by blast
  show ?thesis
    using busy one two calls by (intro conjI)
qed

end
